theory Spec2Isabelle
  imports Main "HOL-Library.List_Lexorder" "HOL-Library.Multiset"
begin

section \<open>The feed polling and update-selection core of the RSS cog (rss/core.py)\<close>

text \<open>
  The development embeds the pure part of \<^verbatim>\<open>rss/core.py\<close>: the entry time extractor
  \<^verbatim>\<open>process_entry_time\<close>, the match-rule evaluator \<^verbatim>\<open>meets_rule\<close>, the selection of the
  entries to send in \<^verbatim>\<open>format_and_send\<close>, the fetcher \<^verbatim>\<open>fetch_feed\<close> and the feed
  discovery \<^verbatim>\<open>find_feeds\<close>. The HTTP client, the feed parser, the HTML parser and the URL
  parser are libraries; what they return is an input of the model.

  \<^verbatim>\<open>core.py\<close> carries, for a few statements, an earlier and a later form one after the other
  (two import lines for the converters, two assignments of \<^verbatim>\<open>__version__\<close>, the forced
  branch and the list handed to \<^verbatim>\<open>sorted\<close> in \<^verbatim>\<open>format_and_send\<close>). The later form is the
  one embedded: \<^verbatim>\<open>next(filter(meets_rule, response.entries), None)\<close> for the forced branch
  and the comprehension with \<^verbatim>\<open>and meets_rule(e)\<close> for the normal one.
\<close>

subsection \<open>Data\<close>

text \<open>
  A \<^verbatim>\<open>time.struct_time\<close>, the value the feed parser stores under the keys
  \<^verbatim>\<open>published_parsed\<close> and \<^verbatim>\<open>updated_parsed\<close>. Its nine components are Python integers.
\<close>

record struct_time =
  tm_year :: int
  tm_mon :: int
  tm_mday :: int
  tm_hour :: int
  tm_min :: int
  tm_sec :: int
  tm_wday :: int
  tm_yday :: int
  tm_isdst :: int

text \<open>\<^verbatim>\<open>tuple(t)\<close> for a struct time: its components in order.\<close>

definition tuple_of :: "struct_time \<Rightarrow> int list" where
  "tuple_of t =
     [tm_year t, tm_mon t, tm_mday t, tm_hour t, tm_min t, tm_sec t, tm_wday t, tm_yday t,
      tm_isdst t]"

text \<open>
  The values of an entry's fields. An element of a list-valued field is a string or a
  sub-record (the parser gives \<^verbatim>\<open>tags\<close>, \<^verbatim>\<open>content\<close> and \<^verbatim>\<open>contributors\<close> as lists of
  dictionaries); of a sub-record only the keys matter to \<^verbatim>\<open>term in item\<close>. \<open>POther\<close> is any
  value that is neither a string, a list nor a struct time (a sub-record, a number, None).
\<close>

datatype pyitem = IStr string | IDict "string list"

datatype pyval = PStr string | PList "pyitem list" | PTime struct_time | POther

text \<open>
  An entry is a dictionary. The two time keys hold a struct time when they are present;
  the other keys are kept as an association list, so that the entry with no key at all
  (the only entry that Python takes for false) can be told apart.
\<close>

record entry =
  published_parsed :: "struct_time option"
  updated_parsed :: "struct_time option"
  attrs :: "(string \<times> pyval) list"

text \<open>\<^verbatim>\<open>getattr(entry, field_name, None)\<close>; \<open>None\<close> when the entry has no such key.\<close>

definition getattr :: "entry \<Rightarrow> string \<Rightarrow> pyval option" where
  "getattr e field_name =
     (if field_name = ''published_parsed'' then map_option PTime (published_parsed e)
      else if field_name = ''updated_parsed'' then map_option PTime (updated_parsed e)
      else map_of (attrs e) field_name)"

text \<open>\<^verbatim>\<open>bool(entry)\<close>: a dictionary is true when it has a key.\<close>

definition truthy :: "entry \<Rightarrow> bool" where
  "truthy e = (published_parsed e \<noteq> None \<or> updated_parsed e \<noteq> None \<or> attrs e \<noteq> [])"

subsection \<open>Strings\<close>

text \<open>
  Text is modelled as ASCII: \<^verbatim>\<open>str.casefold\<close> sends the letters A to Z to a to z and leaves
  every other character as it is. \<open>str_contains t s\<close> is Python's \<^verbatim>\<open>t in s\<close> on strings.
\<close>

definition is_upper :: "char \<Rightarrow> bool" where
  "is_upper c = (65 \<le> (of_char c :: nat) \<and> (of_char c :: nat) \<le> 90)"

definition casefold_char :: "char \<Rightarrow> char" where
  "casefold_char c = (if is_upper c then char_of ((of_char c :: nat) + 32) else c)"

definition casefold :: "string \<Rightarrow> string" where
  "casefold s = map casefold_char s"

fun starts_with :: "string \<Rightarrow> string \<Rightarrow> bool" where
  "starts_with [] s = True"
| "starts_with (c # t) [] = False"
| "starts_with (c # t) (d # s) = (c = d \<and> starts_with t s)"

fun str_contains :: "string \<Rightarrow> string \<Rightarrow> bool" where
  "str_contains t [] = (t = [])"
| "str_contains t (d # s) = (starts_with t (d # s) \<or> str_contains t s)"

subsection \<open>The entry time extractor\<close>

text \<open>
  \<^verbatim>\<open>
  def process_entry_time(x):
      if "published_parsed" in x:
          return tuple(x.get("published_parsed"))[:5]
      if "updated_parsed" in x:
          return tuple(x.get("updated_parsed"))[:5]
      return (0,)
  \<close>
  A Python tuple of integers is an \<open>int list\<close>; tuples compare lexicographically, a proper
  prefix being smaller, which is the order of \<open>HOL-Library.List_Lexorder\<close>.
\<close>

definition process_entry_time :: "entry \<Rightarrow> int list" where
  "process_entry_time x =
     (case published_parsed x of
        Some t \<Rightarrow> take 5 (tuple_of t)
      | None \<Rightarrow>
          (case updated_parsed x of
             Some t \<Rightarrow> take 5 (tuple_of t)
           | None \<Rightarrow> [0]))"

subsection \<open>The match-rule evaluator\<close>

text \<open>
  \<^verbatim>\<open>
  match_rule = feed_settings.get("match_req", [])

  def meets_rule(entry):
      if not match_rule:
          return True
      field_name, term = match_rule
      d = getattr(entry, field_name, None)
      if not d:
          return False
      elif isinstance(d, list):
          for item in d:
              if term in item:
                  return True
          return False
      elif isinstance(d, str):
          return term in d.casefold()
      return False
  \<close>
  The rule is absent or the pair that \<^verbatim>\<open>rss_set_match_req\<close> stores.
\<close>

fun item_contains :: "string \<Rightarrow> pyitem \<Rightarrow> bool" where
  "item_contains t (IStr s) = str_contains t s"
| "item_contains t (IDict ks) = (t \<in> set ks)"

fun meets_rule :: "(string \<times> string) option \<Rightarrow> entry \<Rightarrow> bool" where
  "meets_rule None e = True"
| "meets_rule (Some (field_name, t)) e =
     (case getattr e field_name of
        None \<Rightarrow> False
      | Some (PList d) \<Rightarrow> if d = [] then False else list_ex (item_contains t) d
      | Some (PStr d) \<Rightarrow> if d = [] then False else str_contains t (casefold d)
      | Some _ \<Rightarrow> False)"

subsection \<open>The entries to send\<close>

text \<open>
  The settings of one subscription, as \<^verbatim>\<open>format_and_send\<close> reads them: the stored cursor
  under the key \<^verbatim>\<open>last\<close> (absent until something was sent, then a list of integers) and
  the match rule under \<^verbatim>\<open>match_req\<close>.
\<close>

record feed_settings =
  last_setting :: "int list option"
  match_req :: "(string \<times> string) option"

text \<open>
  \<^verbatim>\<open>
  last = feed_settings.get("last", None)
  last = tuple((last or (0,))[:5])
  \<close>
  \<^verbatim>\<open>last or (0,)\<close> replaces an absent and an empty cursor by the sentinel.
\<close>

definition normalise_last :: "int list option \<Rightarrow> int list" where
  "normalise_last l =
     take 5 (case l of None \<Rightarrow> [0] | Some xs \<Rightarrow> if xs = [] then [0] else xs)"

text \<open>
  \<^verbatim>\<open>
  if force:
      _to_send = next(filter(meets_rule, response.entries), None)
      if not _to_send:
          return None
      to_send = [_to_send]
  else:
      last = feed_settings.get("last", None)
      last = tuple((last or (0,))[:5])
      to_send = sorted(
          [
              e
              for e in response.entries
              if self.process_entry_time(e) > last and meets_rule(e)
          ],
          key=self.process_entry_time,
      )
  \<close>
  The result \<open>None\<close> is the early \<^verbatim>\<open>return None\<close>, before anything is sent. \<^verbatim>\<open>sorted\<close> is
  stable, as \<open>sort_key\<close> is.
\<close>

definition to_send :: "feed_settings \<Rightarrow> entry list \<Rightarrow> bool \<Rightarrow> entry list option" where
  "to_send fs entries force =
     (if force then
        (case find (meets_rule (match_req fs)) entries of
           None \<Rightarrow> None
         | Some e \<Rightarrow> if \<not> truthy e then None else Some [e])
      else
        Some (sort_key process_entry_time
               (filter (\<lambda>e. normalise_last (last_setting fs) < process_entry_time e
                             \<and> meets_rule (match_req fs) e) entries)))"

text \<open>
  Modelled from the spec: the end of \<^verbatim>\<open>format_and_send\<close> (what it assigns to
  \<^verbatim>\<open>last_sent\<close> in the loop over \<^verbatim>\<open>to_send\<close> and returns) and the polling loop that
  stores the returned value are not part of the source at hand. The specification: "New
  cursor = the time-key of the last (latest) entry actually selected; if nothing selected,
  cursor is unchanged."
\<close>

definition new_cursor :: "int list option \<Rightarrow> entry list \<Rightarrow> int list option" where
  "new_cursor l sel = (if sel = [] then l else Some (process_entry_time (last sel)))"

subsection \<open>The fetcher\<close>

text \<open>
  What \<^verbatim>\<open>session.get(url)\<close> followed by \<^verbatim>\<open>response.read()\<close> gives: the bytes of the body, or
  an exception. \<open>ClientError\<close> is \<^verbatim>\<open>aiohttp.ClientError\<close> and its subclasses,
  \<open>TimeoutError\<close> is \<^verbatim>\<open>asyncio.TimeoutError\<close>, \<open>OtherException\<close> is any other subclass of
  \<^verbatim>\<open>Exception\<close>, and \<open>Cancelled\<close> stands for what derives from \<^verbatim>\<open>BaseException\<close> only
  (\<^verbatim>\<open>asyncio.CancelledError\<close>), which \<^verbatim>\<open>except Exception\<close> does not catch.
\<close>

datatype exn = ClientError | TimeoutError | OtherException | Cancelled

type_synonym bytes = string

datatype http_result = Read bytes | Raised exn

text \<open>The parsed feed, of which the core reads the entries and the bozo flag.\<close>

record feed_doc =
  entries :: "entry list"
  bozo :: bool

text \<open>
  \<^verbatim>\<open>
  async def fetch_feed(self, url):
      timeout = aiohttp.client.ClientTimeout(total=15)
      try:
          async with self.session.get(url, timeout=timeout) as response:
              data = await response.read()
      except (aiohttp.ClientError, asyncio.TimeoutError):
          return None
      except Exception as exc:
          debug_exc_log(...)
          return None
      ret = feedparser.parse(data)
      self.bot.dispatch("sinbadcogs_rss_fetch", ...)
      if ret.bozo:
          return None
      return ret
  \<close>
  The HTTP client and the feed parser are parameters. The logging and the dispatch to the
  listeners do not change what is returned and are left out. \<open>Inl\<close> is an exception that
  leaves the function.
\<close>

definition fetch_feed ::
  "(string \<Rightarrow> http_result) \<Rightarrow> (bytes \<Rightarrow> feed_doc) \<Rightarrow> string \<Rightarrow> exn + feed_doc option" where
  "fetch_feed http_get parse url =
     (case http_get url of
        Raised ClientError \<Rightarrow> Inr None
      | Raised TimeoutError \<Rightarrow> Inr None
      | Raised OtherException \<Rightarrow> Inr None
      | Raised Cancelled \<Rightarrow> Inl Cancelled
      | Read data \<Rightarrow> (let ret = parse data in if bozo ret then Inr None else Inr (Some ret)))"

subsection \<open>Feed discovery\<close>









subsection \<open>Sample inputs\<close>

text \<open>
  An entry published on 2024-01-01 at minute \<open>m\<close> past midnight, an entry with a title and
  no time field, and the entry with no field at all.
\<close>

definition dated :: "int \<Rightarrow> string \<Rightarrow> entry" where
  "dated m title =
     \<lparr>published_parsed = Some \<lparr>tm_year = 2024, tm_mon = 1, tm_mday = 1, tm_hour = 0, tm_min = m,
         tm_sec = 0, tm_wday = 0, tm_yday = 1, tm_isdst = 0\<rparr>,
      updated_parsed = None, attrs = [(''title'', PStr title)]\<rparr>"

definition undated :: "string \<Rightarrow> entry" where
  "undated title =
     \<lparr>published_parsed = None, updated_parsed = None, attrs = [(''title'', PStr title)]\<rparr>"

definition no_fields :: entry where
  "no_fields = \<lparr>published_parsed = None, updated_parsed = None, attrs = []\<rparr>"

text \<open>
  The site \<^verbatim>\<open>https://example.com/\<close>: its page and its feed at \<^verbatim>\<open>/feed.xml\<close> can be read and
  the feed parses cleanly; any other URL, a relative one among them, fails in the client.
  \<open>link_page\<close> has the one tag
  \<^verbatim>\<open><link rel="alternate" type="application/rss+xml" href="/feed.xml">\<close> and no anchor;
  \<open>anchor_page\<close> has the one tag \<^verbatim>\<open><a href="/feed.xml">\<close> and no link.
\<close>

definition example_get :: "string \<Rightarrow> http_result" where
  "example_get url =
     (if url = ''https://example.com/'' then Read ''<html>''
      else if url = ''https://example.com/feed.xml'' then Read ''<rss>''
      else Raised ClientError)"

definition example_parse :: "bytes \<Rightarrow> feed_doc" where
  "example_parse data = \<lparr>entries = [], bozo = (data \<noteq> ''<rss>'')\<rparr>"




section \<open>Properties\<close>

subsection \<open>Strings\<close>






subsection \<open>The time key\<close>

lemma take5_tuple_of:
  "take 5 (tuple_of t) = [tm_year t, tm_mon t, tm_mday t, tm_hour t, tm_min t]"
  by (simp add: tuple_of_def)



subsection \<open>The match rule\<close>









subsection \<open>The entries to send in a normal poll\<close>

lemma process_entry_time_shape:
  "process_entry_time e \<noteq> [] \<and> length (process_entry_time e) \<le> 5"
  by (simp add: process_entry_time_def take5_tuple_of split: option.splits)


lemma normalise_last_Some: "c \<noteq> [] \<Longrightarrow> length c \<le> 5 \<Longrightarrow> normalise_last (Some c) = c"
  by (simp add: normalise_last_def)

lemma normalise_last_key: "normalise_last (Some (process_entry_time e)) = process_entry_time e"
  using process_entry_time_shape [of e] by (simp add: normalise_last_Some)

lemma to_send_normal_eq:
  "to_send fs es False =
     Some (sort_key process_entry_time
            (filter (\<lambda>e. normalise_last (last_setting fs) < process_entry_time e
                          \<and> meets_rule (match_req fs) e) es))"
  by (simp add: to_send_def)

lemma sorted_le_last: "sorted ys \<Longrightarrow> y \<in> set ys \<Longrightarrow> y \<le> last ys"
  for ys :: "'a::linorder list"
  by (induction ys) auto

lemma sorted_key_last_max:
  assumes "sorted (map f xs)" and "x \<in> set xs"
  shows "f x \<le> f (last xs)"
proof -
  from assms(2) have ne: "xs \<noteq> []" by auto
  from assms(2) have "f x \<in> set (map f xs)" by simp
  with assms(1) have "f x \<le> last (map f xs)" by (rule sorted_le_last)
  with ne show ?thesis by (simp add: last_map)
qed

lemma sel_above:
  assumes "to_send fs es False = Some sel" and "e \<in> set sel"
  shows "normalise_last (last_setting fs) < process_entry_time e"
  using assms by (auto simp: to_send_normal_eq)

lemma sel_sorted:
  assumes "to_send fs es False = Some sel"
  shows "sorted (map process_entry_time sel)"
  using assms by (auto simp: to_send_normal_eq)

lemma sel_last_max:
  assumes s: "to_send fs es False = Some sel" and ne: "sel \<noteq> []"
  shows "process_entry_time (last sel) = Max (process_entry_time ` set sel)"
proof -
  have "Max (process_entry_time ` set sel) = process_entry_time (last sel)"
  proof (rule Max_eqI)
    show "finite (process_entry_time ` set sel)" by simp
    show "y \<le> process_entry_time (last sel)" if "y \<in> process_entry_time ` set sel" for y
      using that sorted_key_last_max [OF sel_sorted [OF s]] by auto
    show "process_entry_time (last sel) \<in> process_entry_time ` set sel"
      using ne by simp
  qed
  then show ?thesis by simp
qed

lemma new_cursor_above:
  assumes s: "to_send fs es False = Some sel" and ne: "sel \<noteq> []"
  shows "normalise_last (last_setting fs) < normalise_last (new_cursor (last_setting fs) sel)"
proof -
  from ne have "last sel \<in> set sel" by simp
  with s have "normalise_last (last_setting fs) < process_entry_time (last sel)"
    by (rule sel_above)
  with ne show ?thesis by (simp add: new_cursor_def normalise_last_key)
qed

lemma rerun_empty:
  assumes s: "to_send fs es False = Some sel"
  shows "to_send (fs\<lparr>last_setting := new_cursor (last_setting fs) sel\<rparr>) es False = Some []"
proof (cases "sel = []")
  case True
  with s show ?thesis by (simp add: new_cursor_def)
next
  case False
  let ?n = "process_entry_time (last sel)"
  have "\<not> (?n < process_entry_time e \<and> meets_rule (match_req fs) e)" if e: "e \<in> set es" for e
  proof
    assume a: "?n < process_entry_time e \<and> meets_rule (match_req fs) e"
    from new_cursor_above [OF s False] have "normalise_last (last_setting fs) < ?n"
      using False by (simp add: new_cursor_def normalise_last_key)
    with a have "normalise_last (last_setting fs) < process_entry_time e"
      by (blast intro: less_trans)
    with a e s have "e \<in> set sel" by (auto simp: to_send_normal_eq)
    with sorted_key_last_max [OF sel_sorted [OF s]] have "process_entry_time e \<le> ?n" by blast
    with a show False by (blast dest: leD)
  qed
  then have "filter (\<lambda>e. ?n < process_entry_time e \<and> meets_rule (match_req fs) e) es = []"
    by (simp add: filter_empty_conv)
  with False show ?thesis
    by (simp add: to_send_normal_eq new_cursor_def normalise_last_key)
qed

lemma sentinel_le_normalise:
  "l = None \<or> (\<exists>y r. l = Some (y # r) \<and> 0 \<le> y) \<Longrightarrow> [0] \<le> normalise_last l"
  by (auto simp: normalise_last_def)



text \<open>
  Claim C2. In a normal poll the new cursor is the greatest time key among the entries
  sent, and the cursor as it was when nothing is sent; polling the same document again
  with the new cursor sends nothing.
\<close>

theorem new_cursor_max_idempotent:
  "\<exists>sel. to_send fs es False = Some sel
     \<and> (sel \<noteq> [] \<longrightarrow>
          new_cursor (last_setting fs) sel = Some (Max (process_entry_time ` set sel))
          \<and> normalise_last (new_cursor (last_setting fs) sel)
              = Max (process_entry_time ` set sel))
     \<and> (sel = [] \<longrightarrow> new_cursor (last_setting fs) sel = last_setting fs)
     \<and> to_send (fs\<lparr>last_setting := new_cursor (last_setting fs) sel\<rparr>) es False = Some []"
proof -
  obtain sel where s: "to_send fs es False = Some sel" by (simp add: to_send_normal_eq)
  have a: "new_cursor (last_setting fs) sel = Some (Max (process_entry_time ` set sel))
           \<and> normalise_last (new_cursor (last_setting fs) sel)
               = Max (process_entry_time ` set sel)"
    if "sel \<noteq> []"
    using that sel_last_max [OF s that] normalise_last_key [of "last sel"]
    by (simp add: new_cursor_def)
  have b: "new_cursor (last_setting fs) sel = last_setting fs" if "sel = []"
    using that by (simp add: new_cursor_def)
  from s a b rerun_empty [OF s] show ?thesis by blast
qed

theorem new_cursor_max_idempotent_witness:
  "to_send \<lparr>last_setting = Some [2024, 1, 1, 0, 5], match_req = None\<rparr>
     [dated 10 ''c'', dated 5 ''b'', dated 0 ''a''] False = Some [dated 10 ''c'']
   \<and> [dated 10 ''c''] \<noteq> []
   \<and> new_cursor (Some [2024, 1, 1, 0, 5]) [dated 10 ''c''] = Some [2024, 1, 1, 0, 10]
   \<and> Max (process_entry_time ` set [dated 10 ''c'']) = [2024, 1, 1, 0, 10]
   \<and> to_send \<lparr>last_setting = Some [2024, 1, 1, 0, 10], match_req = None\<rparr>
       [dated 10 ''c'', dated 5 ''b'', dated 0 ''a''] False = Some []
   \<and> new_cursor (Some [2024, 1, 1, 0, 10]) [] = Some [2024, 1, 1, 0, 10]"
proof -
  let ?fs = "\<lparr>last_setting = Some [2024, 1, 1, 0, 5], match_req = None\<rparr>"
  let ?gs = "\<lparr>last_setting = Some [2024, 1, 1, 0, 10], match_req = None\<rparr>"
  let ?es = "[dated 10 ''c'', dated 5 ''b'', dated 0 ''a'']"
  have ev: "to_send ?fs ?es False = Some [dated 10 ''c'']" by code_simp
  have nc: "new_cursor (Some [2024, 1, 1, 0, 5]) [dated 10 ''c''] = Some [2024, 1, 1, 0, 10]"
    by code_simp
  from new_cursor_max_idempotent [of ?fs ?es] obtain sel where
    s: "to_send ?fs ?es False = Some sel"
    and m: "sel \<noteq> [] \<longrightarrow>
          new_cursor (last_setting ?fs) sel = Some (Max (process_entry_time ` set sel))"
    and r: "to_send (?fs\<lparr>last_setting := new_cursor (last_setting ?fs) sel\<rparr>) ?es False = Some []"
    by blast
  from s ev have eq: "sel = [dated 10 ''c'']" by simp
  from m eq nc have mx: "Max (process_entry_time ` set [dated 10 ''c'']) = [2024, 1, 1, 0, 10]"
    by simp
  from r eq nc have r1: "to_send ?gs ?es False = Some []" by simp
  from new_cursor_max_idempotent [of ?gs ?es] obtain sel' where
    s': "to_send ?gs ?es False = Some sel'"
    and u: "sel' = [] \<longrightarrow> new_cursor (last_setting ?gs) sel' = last_setting ?gs"
    by blast
  from s' r1 have "sel' = []" by simp
  with u have u1: "new_cursor (Some [2024, 1, 1, 0, 10]) [] = Some [2024, 1, 1, 0, 10]" by simp
  from ev nc mx r1 u1 show ?thesis by simp
qed

text \<open>
  Claim C9. A normal poll never moves the cursor backward: the new cursor is at or above
  the old one, strictly above it when an entry is sent, and the old one when none is.
\<close>

theorem cursor_never_backward:
  "\<exists>sel. to_send fs es False = Some sel
     \<and> normalise_last (last_setting fs) \<le> normalise_last (new_cursor (last_setting fs) sel)
     \<and> (sel \<noteq> [] \<longrightarrow>
          normalise_last (last_setting fs) < normalise_last (new_cursor (last_setting fs) sel))
     \<and> (sel = [] \<longrightarrow> new_cursor (last_setting fs) sel = last_setting fs)"
proof -
  obtain sel where s: "to_send fs es False = Some sel" by (simp add: to_send_normal_eq)
  have a: "normalise_last (last_setting fs) < normalise_last (new_cursor (last_setting fs) sel)"
    if "sel \<noteq> []"
    using new_cursor_above [OF s that] .
  have b: "new_cursor (last_setting fs) sel = last_setting fs" if "sel = []"
    using that by (simp add: new_cursor_def)
  have c: "normalise_last (last_setting fs) \<le> normalise_last (new_cursor (last_setting fs) sel)"
    using a b by (cases "sel = []") auto
  from s a b c show ?thesis by blast
qed

theorem cursor_never_backward_witness:
  "to_send \<lparr>last_setting = None, match_req = None\<rparr> [dated 3 ''b'', dated 1 ''a''] False
     = Some [dated 1 ''a'', dated 3 ''b'']
   \<and> [dated 1 ''a'', dated 3 ''b''] \<noteq> []
   \<and> normalise_last None < normalise_last (new_cursor None [dated 1 ''a'', dated 3 ''b''])
   \<and> to_send \<lparr>last_setting = Some [2024, 1, 1, 0, 3], match_req = None\<rparr>
       [dated 3 ''b'', dated 1 ''a''] False = Some []
   \<and> new_cursor (Some [2024, 1, 1, 0, 3]) [] = Some [2024, 1, 1, 0, 3]"
proof -
  let ?fs = "\<lparr>last_setting = None, match_req = None\<rparr>"
  let ?gs = "\<lparr>last_setting = Some [2024, 1, 1, 0, 3], match_req = None\<rparr>"
  let ?es = "[dated 3 ''b'', dated 1 ''a'']"
  have ev: "to_send ?fs ?es False = Some [dated 1 ''a'', dated 3 ''b'']" by code_simp
  have ev': "to_send ?gs ?es False = Some []" by code_simp
  from cursor_never_backward [of ?fs ?es] obtain sel where
    s: "to_send ?fs ?es False = Some sel"
    and a: "sel \<noteq> [] \<longrightarrow>
          normalise_last (last_setting ?fs) < normalise_last (new_cursor (last_setting ?fs) sel)"
    by blast
  from s ev have eq: "sel = [dated 1 ''a'', dated 3 ''b'']" by simp
  with a have a1: "normalise_last None
      < normalise_last (new_cursor None [dated 1 ''a'', dated 3 ''b''])" by simp
  from cursor_never_backward [of ?gs ?es] obtain sel' where
    s': "to_send ?gs ?es False = Some sel'"
    and u: "sel' = [] \<longrightarrow> new_cursor (last_setting ?gs) sel' = last_setting ?gs"
    by blast
  from s' ev' have "sel' = []" by simp
  with u have u1: "new_cursor (Some [2024, 1, 1, 0, 3]) [] = Some [2024, 1, 1, 0, 3]" by simp
  from ev ev' a1 u1 show ?thesis by simp
qed

text \<open>
  Claim C3, as the code has it. In a normal poll an entry with neither time field is
  never among the entries to send, whether it meets the match rule or not: not while the
  cursor is still absent (the entry's key and the cursor are then the same sentinel, and
  the comparison is strict), and not once a cursor with a year that is not negative is
  stored.
\<close>

theorem undated_never_sent:
  assumes "last_setting fs = None \<or> (\<exists>y r. last_setting fs = Some (y # r) \<and> 0 \<le> y)"
    and "published_parsed e = None" and "updated_parsed e = None"
  shows "\<exists>sel. to_send fs es False = Some sel \<and> e \<notin> set sel"
proof -
  from assms(1) have "[0] \<le> normalise_last (last_setting fs)" by (rule sentinel_le_normalise)
  moreover from assms(2,3) have "process_entry_time e = [0]"
    by (simp add: process_entry_time_def)
  ultimately have "\<not> normalise_last (last_setting fs) < process_entry_time e" by simp
  then show ?thesis by (simp add: to_send_normal_eq)
qed

theorem undated_never_sent_witness:
  "last_setting \<lparr>last_setting = None, match_req = None\<rparr> = None
   \<and> published_parsed (undated ''x'') = None \<and> updated_parsed (undated ''x'') = None
   \<and> (\<exists>sel. to_send \<lparr>last_setting = None, match_req = None\<rparr> [undated ''x'', dated 1 ''a''] False
         = Some sel \<and> undated ''x'' \<notin> set sel)
   \<and> (\<exists>sel. to_send \<lparr>last_setting = Some [2024, 1, 1, 0, 1], match_req = None\<rparr>
               [undated ''x'', dated 1 ''a''] False
         = Some sel \<and> undated ''x'' \<notin> set sel)"
proof -
  have p: "published_parsed (undated ''x'') = None" by (simp add: undated_def)
  have u: "updated_parsed (undated ''x'') = None" by (simp add: undated_def)
  have h1: "last_setting \<lparr>last_setting = None, match_req = None\<rparr> = None
      \<or> (\<exists>y r. last_setting \<lparr>last_setting = None, match_req = None\<rparr> = Some (y # r) \<and> 0 \<le> y)"
    by simp
  have h2: "last_setting \<lparr>last_setting = Some [2024, 1, 1, 0, 1], match_req = None\<rparr> = None
      \<or> (\<exists>y r. last_setting \<lparr>last_setting = Some [2024, 1, 1, 0, 1], match_req = None\<rparr>
                 = Some (y # r) \<and> 0 \<le> y)"
    by simp
  from undated_never_sent [OF h1 p u, of "[undated ''x'', dated 1 ''a'']"]
    undated_never_sent [OF h2 p u, of "[undated ''x'', dated 1 ''a'']"] p u
  show ?thesis by simp
qed

text \<open>
  The claim as the specification words it fails at the first poll: with no cursor stored
  and no rule, an entry without time fields meets the rule and is not sent.
\<close>

theorem undated_not_sent_at_first_poll:
  "process_entry_time (undated ''x'') = [0]
   \<and> meets_rule (match_req \<lparr>last_setting = None, match_req = None\<rparr>) (undated ''x'')
   \<and> last_setting \<lparr>last_setting = None, match_req = None\<rparr> = None
   \<and> to_send \<lparr>last_setting = None, match_req = None\<rparr> [undated ''x''] False = Some []"
proof -
  have a: "process_entry_time (undated ''x'') = [0]" by code_simp
  have b: "to_send \<lparr>last_setting = None, match_req = None\<rparr> [undated ''x''] False = Some []"
    by code_simp
  from a b show ?thesis by simp
qed

subsection \<open>The forced branch\<close>

lemma to_send_forced:
  "to_send fs es True = Some sel \<Longrightarrow>
     \<exists>e. sel = [e] \<and> find (meets_rule (match_req fs)) es = Some e"
  by (auto simp: to_send_def split: option.splits if_splits)

lemma to_send_forced_truthy:
  assumes "\<forall>e \<in> set es. truthy e"
  shows "to_send fs es True = map_option (\<lambda>e. [e]) (find (meets_rule (match_req fs)) es)"
proof (cases "find (meets_rule (match_req fs)) es")
  case None
  then show ?thesis by (simp add: to_send_def)
next
  case (Some e)
  then have "e \<in> set es" by (auto simp: find_Some_iff)
  with assms have "truthy e" by blast
  with Some show ?thesis by (simp add: to_send_def)
qed

text \<open>
  Claim C6 at an input where the code departs from it. With \<open>force\<close> and no rule, the
  first entry of the document meets the rule; when it is the entry with no field, the test
  \<^verbatim>\<open>if not _to_send\<close> takes it for "nothing found" and the function returns before sending
  anything.
\<close>

theorem forced_first_entry_without_fields:
  "meets_rule None no_fields
   \<and> find (meets_rule None) [no_fields, dated 1 ''a''] = Some no_fields
   \<and> to_send \<lparr>last_setting = None, match_req = None\<rparr> [no_fields, dated 1 ''a''] True = None"
proof -
  have a: "find (meets_rule None) [no_fields, dated 1 ''a''] = Some no_fields" by code_simp
  have b: "to_send \<lparr>last_setting = None, match_req = None\<rparr> [no_fields, dated 1 ''a''] True = None"
    by code_simp
  from a b show ?thesis by simp
qed

subsection \<open>The fetcher\<close>

lemma fetch_feed_Raised:
  "http_get url = Raised x \<Longrightarrow>
     fetch_feed http_get parse url = (if x = Cancelled then Inl Cancelled else Inr None)"
  by (cases x) (simp_all add: fetch_feed_def)

lemma fetch_feed_Read:
  "http_get url = Read data \<Longrightarrow>
     fetch_feed http_get parse url
       = (if bozo (parse data) then Inr None else Inr (Some (parse data)))"
  by (simp add: fetch_feed_def Let_def)

lemma fetch_feed_Some:
  assumes "fetch_feed http_get parse url = Inr (Some doc)"
  shows "(\<exists>data. http_get url = Read data \<and> doc = parse data) \<and> \<not> bozo doc"
proof (cases "http_get url")
  case (Read data)
  with assms show ?thesis by (auto simp: fetch_feed_Read split: if_splits)
next
  case (Raised x)
  with assms show ?thesis by (auto simp: fetch_feed_Raised split: if_splits)
qed

text \<open>
  Claim C7. \<^verbatim>\<open>fetch_feed\<close> returns None, and raises nothing, when the request fails with a
  client error, a timeout or any other exception, and when the parsed document has the
  bozo flag; it returns the parsed document when the parse is clean, and only then.
\<close>

theorem fetch_feed_result:
  "(http_get url = Raised x \<and> (x = ClientError \<or> x = TimeoutError \<or> x = OtherException) \<longrightarrow>
      fetch_feed http_get parse url = Inr None)
   \<and> (http_get url = Read data \<and> bozo (parse data) \<longrightarrow>
      fetch_feed http_get parse url = Inr None)
   \<and> (http_get url = Read data \<and> \<not> bozo (parse data) \<longrightarrow>
      fetch_feed http_get parse url = Inr (Some (parse data)))
   \<and> (fetch_feed http_get parse url = Inr (Some doc) \<longrightarrow>
      (\<exists>data. http_get url = Read data \<and> doc = parse data) \<and> \<not> bozo doc)"
proof -
  have a: "http_get url = Raised x \<and> (x = ClientError \<or> x = TimeoutError \<or> x = OtherException)
      \<longrightarrow> fetch_feed http_get parse url = Inr None"
    by (auto simp: fetch_feed_Raised)
  have b: "http_get url = Read data \<and> bozo (parse data) \<longrightarrow>
      fetch_feed http_get parse url = Inr None"
    by (simp add: fetch_feed_Read)
  have c: "http_get url = Read data \<and> \<not> bozo (parse data) \<longrightarrow>
      fetch_feed http_get parse url = Inr (Some (parse data))"
    by (simp add: fetch_feed_Read)
  have d: "fetch_feed http_get parse url = Inr (Some doc) \<longrightarrow>
      (\<exists>data. http_get url = Read data \<and> doc = parse data) \<and> \<not> bozo doc"
    using fetch_feed_Some by blast
  from a b c d show ?thesis by blast
qed

theorem fetch_feed_result_witness:
  "example_get ''/feed.xml'' = Raised ClientError
   \<and> fetch_feed example_get example_parse ''/feed.xml'' = Inr None
   \<and> example_get ''https://example.com/'' = Read ''<html>'' \<and> bozo (example_parse ''<html>'')
   \<and> fetch_feed example_get example_parse ''https://example.com/'' = Inr None
   \<and> example_get ''https://example.com/feed.xml'' = Read ''<rss>''
   \<and> \<not> bozo (example_parse ''<rss>'')
   \<and> fetch_feed example_get example_parse ''https://example.com/feed.xml''
       = Inr (Some (example_parse ''<rss>''))"
proof -
  have g1: "example_get ''/feed.xml'' = Raised ClientError" by code_simp
  have g2: "example_get ''https://example.com/'' = Read ''<html>''" by code_simp
  have g3: "example_get ''https://example.com/feed.xml'' = Read ''<rss>''" by code_simp
  have b2: "bozo (example_parse ''<html>'')" by code_simp
  have b3: "\<not> bozo (example_parse ''<rss>'')" by code_simp
  from fetch_feed_result [of example_get "''/feed.xml''" ClientError example_parse] g1
  have r1: "fetch_feed example_get example_parse ''/feed.xml'' = Inr None" by blast
  from fetch_feed_result [of example_get "''https://example.com/''" _ example_parse "''<html>''"]
    g2 b2
  have r2: "fetch_feed example_get example_parse ''https://example.com/'' = Inr None" by blast
  from fetch_feed_result
    [of example_get "''https://example.com/feed.xml''" _ example_parse "''<rss>''"] g3 b3
  have r3: "fetch_feed example_get example_parse ''https://example.com/feed.xml''
       = Inr (Some (example_parse ''<rss>''))" by blast
  from g1 r1 g2 b2 r2 g3 b3 r3 show ?thesis by blast
qed

subsection \<open>Feed discovery\<close>













end
